theory Spec2Isabelle
  imports Complex_Main "HOL-Library.Word"
begin

section \<open>Data model (types.ts)\<close>

text \<open>
  Numbers of the program are JavaScript numbers. Counters, indices and whole seconds are
  modelled as \<open>int\<close>; quantities that the code multiplies by fractions (the reward, audio
  samples, clock times) are modelled as \<open>real\<close>, that is, in exact arithmetic.
\<close>

datatype Difficulty = EASY | MEDIUM | HARD | VERY_HARD

datatype QuestionType = MCQ | TRUE_FALSE | SHORT_ANSWER | FILL_IN_BLANK

datatype QuestionTag = Tag_mcq | Tag_true_false | Tag_short | Tag_fill_in

record QuizQuestion =
  qid :: int
  question :: string
  options :: "string list option"
  correctAnswer :: string
  explanation :: string
  qtype :: QuestionTag

record QuizData =
  title :: string
  summary :: string
  questions :: "QuizQuestion list"

record QuizConfig =
  difficulty :: Difficulty
  questionCount :: int
  questionType :: QuestionType
  enableTimer :: bool
  secondsPerQuestion :: int

section \<open>String helpers of the platform\<close>

text \<open>
  Strings are sequences of ASCII characters. \<open>toLowerCase\<close> maps the letters A to Z to
  a to z and leaves every other character alone; \<open>trim\<close> removes the leading and the
  trailing run of white space (tab, line feed, vertical tab, form feed, carriage return,
  space).
\<close>

definition toLowerCase_char :: "char \<Rightarrow> char" where
  "toLowerCase_char c =
     (let n = (of_char c :: nat) in if 65 \<le> n \<and> n \<le> 90 then char_of (n + 32) else c)"

definition toLowerCase :: "string \<Rightarrow> string" where
  "toLowerCase s = map toLowerCase_char s"

definition isWhiteSpace :: "char \<Rightarrow> bool" where
  "isWhiteSpace c = (let n = (of_char c :: nat) in (9 \<le> n \<and> n \<le> 13) \<or> n = 32)"

definition trimStart :: "string \<Rightarrow> string" where
  "trimStart s = dropWhile isWhiteSpace s"

definition trimEnd :: "string \<Rightarrow> string" where
  "trimEnd s = rev (dropWhile isWhiteSpace (rev s))"

definition trim :: "string \<Rightarrow> string" where
  "trim s = trimEnd (trimStart s)"

section \<open>The quiz player (components/QuizPlayer.tsx)\<close>

text \<open>
  The component state, one field per \<open>useState\<close> cell that the scoring and the timer
  read or write. The floating feedback list, the bump animations, the confetti and the
  leaderboard are presentation and are left out.
\<close>

record QuizSessionState =
  currentIdx :: nat
  selectedAnswer :: string
  showResult :: bool
  score :: int
  coins :: int
  quizFinished :: bool
  streak :: int
  maxStreak :: int
  timeLeft :: int
  timerActive :: bool
  fastestAnswer :: "int option"

text \<open>\<open>fastestAnswer\<close> starts at \<open>Infinity\<close>, which is \<open>None\<close> here.\<close>

definition DIFFICULTY_MULTIPLIER :: "Difficulty \<rightharpoonup> real" where
  "DIFFICULTY_MULTIPLIER =
     [EASY \<mapsto> 1, MEDIUM \<mapsto> 3 / 2, HARD \<mapsto> 2, VERY_HARD \<mapsto> 3]"

text \<open>\<open>DIFFICULTY_MULTIPLIER[config.difficulty] || 1\<close>: a missing or zero entry gives 1.\<close>

definition diffMult :: "QuizConfig \<Rightarrow> real" where
  "diffMult config =
     (case DIFFICULTY_MULTIPLIER (difficulty config) of
        None \<Rightarrow> 1
      | Some m \<Rightarrow> if m = 0 then 1 else m)"

definition timeBonus :: "QuizConfig \<Rightarrow> int \<Rightarrow> real" where
  "timeBonus config secs = (if enableTimer config then real_of_int secs * 2 else 0)"

definition streakBonus :: "int \<Rightarrow> real" where
  "streakBonus st = min (real_of_int st * (1 / 10)) (1 / 2)"

text \<open>\<open>Math.round\<close> rounds half up, as \<^const>\<open>round\<close> does.\<close>

definition earnedCoins :: "QuizConfig \<Rightarrow> int \<Rightarrow> int \<Rightarrow> int" where
  "earnedCoins config secs st =
     (let basePoints = 100
      in round ((basePoints * diffMult config + timeBonus config secs) * (1 + streakBonus st)))"

definition isCorrect :: "string \<Rightarrow> string \<Rightarrow> bool" where
  "isCorrect answer expected \<longleftrightarrow> trim (toLowerCase answer) = trim (toLowerCase expected)"

definition handleTimeRunOut :: "QuizSessionState \<Rightarrow> QuizSessionState" where
  "handleTimeRunOut s = s\<lparr>streak := 0, showResult := True\<rparr>"

definition handleAnswer :: "string \<Rightarrow> QuizSessionState \<Rightarrow> QuizSessionState" where
  "handleAnswer answer s = (if showResult s then s else s\<lparr>selectedAnswer := answer\<rparr>)"

definition handleSubmit ::
  "QuizConfig \<Rightarrow> QuizQuestion \<Rightarrow> QuizSessionState \<Rightarrow> QuizSessionState" where
  "handleSubmit config currentQ s =
     (let s1 = s\<lparr>timerActive := False\<rparr>
      in if isCorrect (selectedAnswer s) (correctAnswer currentQ) then
           (let timeTaken =
                  (if enableTimer config then secondsPerQuestion config - timeLeft s else 0);
                faster = (case fastestAnswer s of None \<Rightarrow> True | Some f \<Rightarrow> timeTaken < f);
                newStreak = streak s + 1
            in s1\<lparr>score := score s + 1,
                  fastestAnswer := (if faster then Some timeTaken else fastestAnswer s),
                  coins := coins s + earnedCoins config (timeLeft s) (streak s),
                  streak := newStreak,
                  showResult := True\<rparr>)
         else s1\<lparr>streak := 0, showResult := True\<rparr>)"

definition handleNext :: "QuizData \<Rightarrow> QuizSessionState \<Rightarrow> QuizSessionState" where
  "handleNext quiz s =
     (if int (currentIdx s) < int (length (questions quiz)) - 1
      then s\<lparr>currentIdx := currentIdx s + 1, selectedAnswer := [], showResult := False\<rparr>
      else s\<lparr>quizFinished := True\<rparr>)"

text \<open>The updater that the one-second interval passes to \<open>setTimeLeft\<close>.\<close>

definition timerTick :: "QuizSessionState \<Rightarrow> QuizSessionState" where
  "timerTick s =
     (if timeLeft s \<le> 1 then (handleTimeRunOut s)\<lparr>timeLeft := 0\<rparr>
      else s\<lparr>timeLeft := timeLeft s - 1\<rparr>)"

text \<open>The interval exists only while the guard of the timer effect lets it through.\<close>

definition timerRunning :: "QuizConfig \<Rightarrow> QuizSessionState \<Rightarrow> bool" where
  "timerRunning config s \<longleftrightarrow>
     enableTimer config \<and> timerActive s \<and> \<not> showResult s \<and> \<not> quizFinished s"

text \<open>The effects that run after a render: the maximum streak, and the timer reset
  whose dependency is the question index.\<close>

definition maxStreakEffect :: "QuizSessionState \<Rightarrow> QuizSessionState" where
  "maxStreakEffect s = (if streak s > maxStreak s then s\<lparr>maxStreak := streak s\<rparr> else s)"

definition resetTimerEffect :: "QuizConfig \<Rightarrow> QuizSessionState \<Rightarrow> QuizSessionState" where
  "resetTimerEffect config s =
     (if enableTimer config
      then s\<lparr>timeLeft := secondsPerQuestion config, timerActive := True\<rparr> else s)"

definition runEffects ::
  "QuizConfig \<Rightarrow> QuizSessionState \<Rightarrow> QuizSessionState \<Rightarrow> QuizSessionState" where
  "runEffects config before after =
     maxStreakEffect
       (if currentIdx after \<noteq> currentIdx before then resetTimerEffect config after else after)"

text \<open>The state after the first render: the \<open>useState\<close> initial values, then the effects
  of the mount.\<close>

definition initialState :: "QuizConfig \<Rightarrow> QuizSessionState" where
  "initialState config =
     maxStreakEffect (resetTimerEffect config
       \<lparr>currentIdx = 0, selectedAnswer = [], showResult = False, score = 0, coins = 0,
        quizFinished = False, streak = 0, maxStreak = 0,
        timeLeft = (if enableTimer config then secondsPerQuestion config else 0),
        timerActive = False, fastestAnswer = None\<rparr>)"

text \<open>
  What can happen to a session. An event whose control is not on the screen (the
  submit button is shown only before the result and is disabled on an empty answer, the
  next button only after it, the interval only under its guard, nothing of the question
  view once the quiz is finished) leaves the state as it is. Rendering a question that
  does not exist throws; that is \<open>None\<close>.
\<close>

datatype QuizEvent = Answer string | Submit | Next | Tick

definition currentQ :: "QuizData \<Rightarrow> QuizSessionState \<Rightarrow> QuizQuestion option" where
  "currentQ quiz s =
     (if currentIdx s < length (questions quiz) then Some (questions quiz ! currentIdx s)
      else None)"

definition dispatch ::
  "QuizData \<Rightarrow> QuizConfig \<Rightarrow> QuizEvent \<Rightarrow> QuizSessionState \<Rightarrow> QuizSessionState option" where
  "dispatch quiz config ev s =
     (if quizFinished s then Some s
      else case currentQ quiz s of
        None \<Rightarrow> None
      | Some q \<Rightarrow>
          Some (runEffects config s
            (case ev of
               Answer a \<Rightarrow> handleAnswer a s
             | Submit \<Rightarrow>
                 if \<not> showResult s \<and> selectedAnswer s \<noteq> [] then handleSubmit config q s else s
             | Next \<Rightarrow> if showResult s then handleNext quiz s else s
             | Tick \<Rightarrow> if timerRunning config s then timerTick s else s)))"

fun run ::
  "QuizData \<Rightarrow> QuizConfig \<Rightarrow> QuizEvent list \<Rightarrow> QuizSessionState \<Rightarrow> QuizSessionState option" where
  "run quiz config [] s = Some s"
| "run quiz config (ev # evs) s =
     (case dispatch quiz config ev s of None \<Rightarrow> None | Some s' \<Rightarrow> run quiz config evs s')"

text \<open>The rank of the summary screen; the icon is markup and is left out.\<close>

record Rank =
  rank_title :: string
  rank_color :: string

definition getRank :: "int \<Rightarrow> Rank" where
  "getRank percentage =
     (if percentage = 100 then \<lparr>rank_title = ''Galactic Overlord'', rank_color = ''text-yellow-400''\<rparr>
      else if percentage \<ge> 80 then \<lparr>rank_title = ''Star Voyager'', rank_color = ''text-fuchsia-400''\<rparr>
      else if percentage \<ge> 50 then \<lparr>rank_title = ''Space Cadet'', rank_color = ''text-cyan-400''\<rparr>
      else \<lparr>rank_title = ''Rocket Rookie'', rank_color = ''text-slate-400''\<rparr>)"

text \<open>\<open>Math.round((score / quiz.questions.length) * 100)\<close>, for a quiz with a question.\<close>

definition percentage :: "QuizData \<Rightarrow> QuizSessionState \<Rightarrow> int" where
  "percentage quiz s =
     round (real_of_int (score s) / real (length (questions quiz)) * 100)"

definition sessionRank :: "QuizData \<Rightarrow> QuizSessionState \<Rightarrow> Rank" where
  "sessionRank quiz s = getRank (percentage quiz s)"

section \<open>The voice assistant (components/VoiceAssistant.tsx)\<close>

text \<open>
  The component keeps references (\<open>useRef\<close>) to browser objects. A reference is
  \<open>None\<close> for \<open>null\<close> and \<open>Some h\<close> for the object with handle \<open>h\<close>. What the
  browser knows about these objects is kept beside the references: the audio contexts
  that are not closed, the media streams whose tracks are not stopped, and the audio
  nodes whose output is connected. \<open>scheduled\<close> lists the calls of \<open>source.start\<close>,
  each with its start time and the samples of its buffer; \<open>outbound\<close> lists the PCM
  blocks handed to the remote session.
\<close>

datatype Status = Status_connecting | Status_connected | Status_error

record VoiceState =
  status :: Status
  volume :: real
  audioContextRef :: "nat option"
  streamRef :: "nat option"
  processorRef :: "nat option"
  sourceRef :: "nat option"
  nextStartTimeRef :: real
  sessionRef :: "nat option"
  openContexts :: "nat set"
  liveStreams :: "nat set"
  connectedNodes :: "nat set"
  scheduled :: "(real \<times> real list) list"
  outbound :: "16 word list list"

definition cleanup :: "VoiceState \<Rightarrow> VoiceState" where
  "cleanup s =
     (let s1 = (case processorRef s of None \<Rightarrow> s
                | Some p \<Rightarrow> s\<lparr>connectedNodes := connectedNodes s - {p}, processorRef := None\<rparr>);
          s2 = (case sourceRef s1 of None \<Rightarrow> s1
                | Some n \<Rightarrow> s1\<lparr>connectedNodes := connectedNodes s1 - {n}, sourceRef := None\<rparr>);
          s3 = (case streamRef s2 of None \<Rightarrow> s2
                | Some m \<Rightarrow> s2\<lparr>liveStreams := liveStreams s2 - {m}, streamRef := None\<rparr>);
          s4 = (case audioContextRef s3 of None \<Rightarrow> s3
                | Some c \<Rightarrow> s3\<lparr>openContexts := openContexts s3 - {c}, audioContextRef := None\<rparr>);
          s5 = (case sessionRef s4 of None \<Rightarrow> s4 | Some x \<Rightarrow> s4\<lparr>sessionRef := None\<rparr>)
      in s5\<lparr>status := Status_connecting, volume := 0\<rparr>)"

text \<open>
  Closing the panel turns \<open>isOpen\<close> to false: the effect's clean-up function runs, then
  the effect itself runs again and takes its first branch.
\<close>

definition closePanel :: "VoiceState \<Rightarrow> VoiceState" where
  "closePanel s = cleanup (cleanup s)"

text \<open>
  \<open>startSession\<close> up to its first \<open>await\<close>: \<open>ctx\<close> is the handle of the new playback
  context and \<open>now\<close> its clock.
\<close>

definition startSession_begin :: "nat \<Rightarrow> real \<Rightarrow> VoiceState \<Rightarrow> VoiceState" where
  "startSession_begin ctx now s =
     s\<lparr>status := Status_connecting, audioContextRef := Some ctx,
       openContexts := insert ctx (openContexts s), nextStartTimeRef := now\<rparr>"

text \<open>Its continuation once the microphone is granted, and its \<open>catch\<close> branch.\<close>

definition startSession_resume :: "nat \<Rightarrow> nat \<Rightarrow> VoiceState \<Rightarrow> VoiceState" where
  "startSession_resume stream session s =
     s\<lparr>streamRef := Some stream, liveStreams := insert stream (liveStreams s),
       sessionRef := Some session\<rparr>"

definition startSession_catch :: "VoiceState \<Rightarrow> VoiceState" where
  "startSession_catch s = s\<lparr>status := Status_error\<rparr>"

text \<open>The callbacks of the live connection.\<close>

definition onopen :: "nat \<Rightarrow> nat \<Rightarrow> nat \<Rightarrow> VoiceState \<Rightarrow> VoiceState" where
  "onopen inputCtx source processor s =
     s\<lparr>status := Status_connected,
       openContexts := insert inputCtx (openContexts s),
       connectedNodes := insert processor (insert source (connectedNodes s)),
       sourceRef := Some source, processorRef := Some processor\<rparr>"

definition onclose :: "VoiceState \<Rightarrow> VoiceState" where
  "onclose s = s\<lparr>status := Status_error\<rparr>"

definition onerror :: "VoiceState \<Rightarrow> VoiceState" where
  "onerror s = s\<lparr>status := Status_error\<rparr>"

text \<open>
  Storing a number in an \<open>Int16Array\<close> drops its fraction (towards zero) and keeps
  the low 16 bits.
\<close>

definition toInt16 :: "real \<Rightarrow> 16 word" where
  "toInt16 x = word_of_int (if 0 \<le> x then \<lfloor>x\<rfloor> else \<lceil>x\<rceil>)"

definition createPcmData :: "real list \<Rightarrow> 16 word list" where
  "createPcmData inputData =
     map (\<lambda>x. let s = max (- 1) (min 1 x)
              in toInt16 (if s < 0 then s * 32768 else s * 32767)) inputData"

text \<open>
  The capture callback. The browser calls it for a script processor only while that
  node is connected.
\<close>

definition captureEnabled :: "VoiceState \<Rightarrow> nat \<Rightarrow> bool" where
  "captureEnabled s processor \<longleftrightarrow> processor \<in> connectedNodes s"

definition onaudioprocess :: "real list \<Rightarrow> VoiceState \<Rightarrow> VoiceState" where
  "onaudioprocess inputData s =
     (let total = sum_list (map (\<lambda>x. x * x) inputData)
      in s\<lparr>volume := sqrt (total / real (length inputData)),
            outbound := outbound s @ [createPcmData inputData]\<rparr>)"

text \<open>
  Playback. \<open>decoded\<close> is what \<open>atob\<close> gives for the frame: \<open>None\<close> when it throws. An
  \<open>Int16Array\<close> over an odd number of bytes and a buffer of no samples throw as well;
  every throw is caught and the frame dropped.
\<close>

fun int16Data :: "8 word list \<Rightarrow> 16 word list" where
  "int16Data (lo # hi # rest) = (or (ucast lo) (push_bit 8 (ucast hi))) # int16Data rest"
| "int16Data rest = []"

definition float32Data :: "8 word list \<Rightarrow> real list" where
  "float32Data bytes = map (\<lambda>w. real_of_int (sint w) / 32768) (int16Data bytes)"

definition bufferDuration :: "real list \<Rightarrow> real" where
  "bufferDuration samples = real (length samples) / 24000"

definition playAudioChunk :: "8 word list option \<Rightarrow> real \<Rightarrow> VoiceState \<Rightarrow> VoiceState" where
  "playAudioChunk decoded now s =
     (case decoded of
        None \<Rightarrow> s
      | Some bytes \<Rightarrow>
          if odd (length bytes) then s
          else let samples = float32Data bytes
               in if samples = [] then s
                  else let startTime = max now (nextStartTimeRef s)
                       in s\<lparr>scheduled := scheduled s @ [(startTime, samples)],
                             nextStartTimeRef := startTime + bufferDuration samples\<rparr>)"

text \<open>A run of inbound frames, each with the playback clock at its arrival.\<close>

fun playAll :: "(real \<times> 8 word list option) list \<Rightarrow> VoiceState \<Rightarrow> VoiceState" where
  "playAll [] s = s"
| "playAll ((now, decoded) # rest) s = playAll rest (playAudioChunk decoded now s)"

definition startOf :: "VoiceState \<Rightarrow> nat \<Rightarrow> real" where
  "startOf s n = fst (scheduled s ! n)"

definition endOf :: "VoiceState \<Rightarrow> nat \<Rightarrow> real" where
  "endOf s n = fst (scheduled s ! n) + bufferDuration (snd (scheduled s ! n))"

section \<open>The generation service (services/geminiService.ts)\<close>

datatype JsError = JsError string

datatype 'a Reply = Throws JsError | Returns 'a

datatype Json =
    JNull | JBool bool | JNumber real | JString string
  | JArray "Json list" | JObject "(string \<times> Json) list"

record FileArg =
  file_data :: string
  file_type :: string

text \<open>
  The parts of a request. \<open>PromptPart config\<close> stands for the prompt template filled
  with the difficulty, the question count and the question type of \<open>config\<close>.
\<close>

datatype Part = PromptPart QuizConfig | ContentPart string | InlineData string string

text \<open>
  \<open>requestParts\<close> is the array \<open>parts\<close> that the function builds. \<open>JSON_parse\<close> is
  the platform's parser (\<open>None\<close> when it throws) and \<open>backend\<close> the remote model, from
  the parts of a request to the text of its response. The second component of the result
  lists the requests that were issued.
\<close>

definition requestParts :: "string \<Rightarrow> FileArg option \<Rightarrow> QuizConfig \<Rightarrow> Part list" where
  "requestParts text file config =
     [PromptPart config]
     @ (if text \<noteq> [] then [ContentPart text] else [])
     @ (case file of None \<Rightarrow> [] | Some f \<Rightarrow> [InlineData (file_type f) (file_data f)])"

definition generateQuiz ::
  "(string \<Rightarrow> Json option) \<Rightarrow> (Part list \<Rightarrow> string option Reply) \<Rightarrow>
   string \<Rightarrow> FileArg option \<Rightarrow> QuizConfig \<Rightarrow> (JsError + Json) \<times> Part list list" where
  "generateQuiz JSON_parse backend text file config =
     (if text = [] \<and> file = None then (Inl (JsError ''No content provided''), [])
      else
        let failed = Inl (JsError ''Failed to generate quiz. Please try again.'');
            parts = requestParts text file config
        in (case backend parts of
              Throws e \<Rightarrow> failed
            | Returns None \<Rightarrow> failed
            | Returns (Some responseText) \<Rightarrow>
                if responseText = [] then failed
                else (case JSON_parse responseText of
                        None \<Rightarrow> failed
                      | Some v \<Rightarrow> Inr v),
            [parts]))"

text \<open>The structure that \<open>QuizData\<close> of types.ts declares, as a check on a parsed value.\<close>

definition isString :: "Json option \<Rightarrow> bool" where
  "isString v = (case v of Some (JString x) \<Rightarrow> True | _ \<Rightarrow> False)"

definition isNumber :: "Json option \<Rightarrow> bool" where
  "isNumber v = (case v of Some (JNumber x) \<Rightarrow> True | _ \<Rightarrow> False)"

definition isStringArray :: "Json \<Rightarrow> bool" where
  "isStringArray v = (case v of JArray xs \<Rightarrow> list_all (\<lambda>x. isString (Some x)) xs | _ \<Rightarrow> False)"

definition isQuizQuestion :: "Json \<Rightarrow> bool" where
  "isQuizQuestion v =
     (case v of
        JObject fs \<Rightarrow>
          isNumber (map_of fs ''id'') \<and> isString (map_of fs ''question'')
          \<and> (case map_of fs ''options'' of None \<Rightarrow> True | Some os \<Rightarrow> isStringArray os)
          \<and> isString (map_of fs ''correctAnswer'') \<and> isString (map_of fs ''explanation'')
          \<and> map_of fs ''type''
              \<in> Some ` JString ` {''mcq'', ''true_false'', ''short'', ''fill_in''}
      | _ \<Rightarrow> False)"

definition isQuizData :: "Json \<Rightarrow> bool" where
  "isQuizData v =
     (case v of
        JObject fs \<Rightarrow>
          isString (map_of fs ''title'') \<and> isString (map_of fs ''summary'')
          \<and> (case map_of fs ''questions'' of
                Some (JArray qs) \<Rightarrow> list_all isQuizQuestion qs
              | _ \<Rightarrow> False)
      | _ \<Rightarrow> False)"

text \<open>
  Video generation. An operation is what the service reports for the job:
  \<open>done\<close>, and the URI at \<open>response.generatedVideos[0].video.uri\<close> when there is one.
  \<open>generateVideos\<close> answers the first request and \<open>polls\<close> lists the answers to the
  polls that follow, five seconds apart. When the answers run out before one is done the
  call has not returned: \<open>None\<close>.
\<close>

record Operation =
  is_done :: bool
  videoUri :: "string option"

definition defaultPrompt :: string where
  "defaultPrompt = ''A cinematic 3D animation of a futuristic app interface. A glowing document uploads, processes with digital particles, and transforms into quiz questions and a winner's trophy. Neon cyan and fuchsia colors, high tech, smooth motion.''"

fun pollOperation :: "Operation \<Rightarrow> Operation Reply list \<Rightarrow> (JsError + Operation) option" where
  "pollOperation operation [] = (if is_done operation then Some (Inr operation) else None)"
| "pollOperation operation (r # rs) =
     (if is_done operation then Some (Inr operation)
      else case r of Throws e \<Rightarrow> Some (Inl e) | Returns operation' \<Rightarrow> pollOperation operation' rs)"

definition generateExplainerVideo ::
  "string \<Rightarrow> (string \<Rightarrow> Operation Reply) \<Rightarrow> Operation Reply list \<Rightarrow> string option \<Rightarrow>
   (JsError + string) option" where
  "generateExplainerVideo API_KEY generateVideos polls customPrompt =
     (let prompt = (case customPrompt of None \<Rightarrow> defaultPrompt
                    | Some p \<Rightarrow> if p = [] then defaultPrompt else p)
      in case generateVideos prompt of
           Throws e \<Rightarrow> Some (Inl e)
         | Returns operation \<Rightarrow>
             (case pollOperation operation polls of
                None \<Rightarrow> None
              | Some (Inl e) \<Rightarrow> Some (Inl e)
              | Some (Inr final) \<Rightarrow>
                  (case videoUri final of
                     None \<Rightarrow> Some (Inl (JsError ''No video URI returned''))
                   | Some uri \<Rightarrow>
                       if uri = [] then Some (Inl (JsError ''No video URI returned''))
                       else Some (Inr (uri @ ''&key='' @ API_KEY)))))"

section \<open>The specification's formulas\<close>

text \<open>
  These definitions follow the words of the specification, to be compared with the code
  above: the difficulty multiplier and the reward formula, and the rank tiers counted
  from the top (1) to the lowest (4).
\<close>

definition spec_difficultyMultiplier :: "Difficulty \<Rightarrow> real" where
  "spec_difficultyMultiplier d =
     (case d of EASY \<Rightarrow> 1 | MEDIUM \<Rightarrow> 3 / 2 | HARD \<Rightarrow> 2 | VERY_HARD \<Rightarrow> 3)"

definition spec_reward :: "Difficulty \<Rightarrow> bool \<Rightarrow> int \<Rightarrow> int \<Rightarrow> int" where
  "spec_reward d timerEnabled remainingSeconds priorStreak =
     round ((100 * spec_difficultyMultiplier d
             + (if timerEnabled then real_of_int remainingSeconds * 2 else 0))
            * (1 + min (real_of_int priorStreak * (1 / 10)) (1 / 2)))"

definition spec_tier :: "int \<Rightarrow> nat" where
  "spec_tier pct =
     (if pct = 100 then 1 else if pct \<ge> 80 then 2 else if pct \<ge> 50 then 3 else 4)"

definition tierOfRank :: "Rank \<Rightarrow> nat" where
  "tierOfRank r =
     (if rank_title r = ''Galactic Overlord'' then 1
      else if rank_title r = ''Star Voyager'' then 2
      else if rank_title r = ''Space Cadet'' then 3
      else 4)"

text \<open>
  Two characters spell the same letter when they are equal or are the upper-case and the
  lower-case form of one ASCII letter. This is the notion of "equal up to case" that the
  comparison is measured against.
\<close>

definition sameLetter :: "char \<Rightarrow> char \<Rightarrow> bool" where
  "sameLetter c d \<longleftrightarrow>
     (let m = (of_char c :: nat); n = (of_char d :: nat)
      in c = d \<or> (65 \<le> m \<and> m \<le> 90 \<and> n = m + 32) \<or> (65 \<le> n \<and> n \<le> 90 \<and> m = n + 32))"

text \<open>Clamping a sample to the interval from \<open>-1\<close> to \<open>1\<close>, in the specification's words.\<close>

definition clampSample :: "real \<Rightarrow> real" where
  "clampSample x = (if x < - 1 then - 1 else if 1 < x then 1 else x)"

definition spec_scaled :: "real \<Rightarrow> real" where
  "spec_scaled x = (let s = clampSample x in if s < 0 then s * 32768 else s * 32767)"

text \<open>
  Scheduled buffers do not overlap when each one ends no later than the next one starts.
  A schedule is sane when, moreover, the cursor is not before the end of the last buffer.
\<close>

fun nonOverlapping :: "(real \<times> real list) list \<Rightarrow> bool" where
  "nonOverlapping (a # b # rest) \<longleftrightarrow>
     fst a + bufferDuration (snd a) \<le> fst b \<and> nonOverlapping (b # rest)"
| "nonOverlapping rest \<longleftrightarrow> True"

definition scheduleSane :: "VoiceState \<Rightarrow> bool" where
  "scheduleSane s \<longleftrightarrow>
     nonOverlapping (scheduled s)
     \<and> (scheduled s \<noteq> [] \<longrightarrow>
          fst (last (scheduled s)) + bufferDuration (snd (last (scheduled s)))
            \<le> nextStartTimeRef s)"

text \<open>The counters that the reward reads are never negative in a session.\<close>

definition countersSane :: "QuizSessionState \<Rightarrow> bool" where
  "countersSane s \<longleftrightarrow> 0 \<le> timeLeft s \<and> 0 \<le> streak s"

section \<open>Sample sessions\<close>

definition exConfig :: QuizConfig where
  "exConfig = \<lparr>difficulty = EASY, questionCount = 3, questionType = SHORT_ANSWER,
      enableTimer = True, secondsPerQuestion = 30\<rparr>"

definition exQuestion :: QuizQuestion where
  "exQuestion = \<lparr>qid = 1, question = ''Capital of France?'', options = None,
      correctAnswer = ''paris'', explanation = ''Paris, on the Seine.'', qtype = Tag_short\<rparr>"

definition exQuiz :: QuizData where
  "exQuiz = \<lparr>title = ''Capitals'', summary = ''Three capitals.'',
      questions = [exQuestion, exQuestion, exQuestion]\<rparr>"

definition exState :: QuizSessionState where
  "exState = \<lparr>currentIdx = 1, selectedAnswer = '' Paris '', showResult = False, score = 1,
      coins = 400, quizFinished = False, streak = 3, maxStreak = 3, timeLeft = 10,
      timerActive = True, fastestAnswer = Some 4\<rparr>"

definition exLocked :: QuizSessionState where
  "exLocked = exState\<lparr>showResult := True, timerActive := False\<rparr>"

definition exAfterSubmit :: QuizSessionState where
  "exAfterSubmit = \<lparr>currentIdx = 0, selectedAnswer = '' Paris '', showResult = True, score = 1,
      coins = 160, quizFinished = False, streak = 1, maxStreak = 1, timeLeft = 30,
      timerActive = False, fastestAnswer = Some 0\<rparr>"

text \<open>
  A voice session: the panel opens at clock \<open>1/2\<close>, the microphone is granted and the
  connection opens. Three frames of one sample each arrive, the third a little late of
  the second but before the second has finished playing.
\<close>

definition exVoice0 :: VoiceState where
  "exVoice0 = \<lparr>status = Status_connecting, volume = 0, audioContextRef = None,
      streamRef = None, processorRef = None, sourceRef = None, nextStartTimeRef = 0,
      sessionRef = None, openContexts = {}, liveStreams = {}, connectedNodes = {},
      scheduled = [], outbound = []\<rparr>"

definition exConnected :: VoiceState where
  "exConnected =
     onopen 3 4 5 (startSession_resume 2 7 (startSession_begin 1 (1 / 2) exVoice0))"

definition exArrivals :: "(real \<times> 8 word list option) list" where
  "exArrivals = [(1, Some [1, 0]), (1, Some [2, 0]), (1 + 1 / 48000, Some [3, 0])]"

definition exBlock :: "real list" where
  "exBlock = [1 / 2, - 1 / 2, 2, - 3, 0, 1 / 3]"

text \<open>
  A parser that knows two texts: \<open>{}\<close> is the empty object and everything else, such as
  \<open><html>\<close>, is not JSON. A backend that answers every request with a given text, and a
  video job that is done at the second poll.
\<close>

definition exParse :: "string \<Rightarrow> Json option" where
  "exParse t = (if t = ''{}'' then Some (JObject []) else None)"

definition exBackend :: "string \<Rightarrow> Part list \<Rightarrow> string option Reply" where
  "exBackend t parts = Returns (Some t)"

definition exGenerateVideos :: "string \<Rightarrow> Operation Reply" where
  "exGenerateVideos prompt = Returns \<lparr>is_done = False, videoUri = None\<rparr>"

definition exPolls :: "Operation Reply list" where
  "exPolls = [Returns \<lparr>is_done = False, videoUri = None\<rparr>,
              Returns \<lparr>is_done = True, videoUri = Some ''https://v.example/a.mp4?alt=media''\<rparr>]"

section \<open>Answer comparison\<close>

lemma isWhiteSpace_toLowerCase_char: "isWhiteSpace (toLowerCase_char c) = isWhiteSpace c"
  by (simp add: toLowerCase_char_def isWhiteSpace_def Let_def)

lemma toLowerCase_append: "toLowerCase (xs @ ys) = toLowerCase xs @ toLowerCase ys"
  by (simp add: toLowerCase_def)

lemma toLowerCase_whitespace:
  "list_all isWhiteSpace ws \<Longrightarrow> list_all isWhiteSpace (toLowerCase ws)"
  by (induction ws) (simp_all add: toLowerCase_def isWhiteSpace_toLowerCase_char)

lemma trimStart_pad: "list_all isWhiteSpace ws \<Longrightarrow> trimStart (ws @ s) = trimStart s"
  by (simp add: trimStart_def dropWhile_append2 list_all_iff)

lemma trimEnd_pad: "list_all isWhiteSpace ws \<Longrightarrow> trimEnd (s @ ws) = trimEnd s"
proof -
  assume "list_all isWhiteSpace ws"
  then have "\<And>x. x \<in> set (rev ws) \<Longrightarrow> isWhiteSpace x"
    by (simp add: list_all_iff)
  then have "dropWhile isWhiteSpace (rev ws @ rev s) = dropWhile isWhiteSpace (rev s)"
    by (rule dropWhile_append2)
  then show ?thesis by (simp add: trimEnd_def)
qed

lemma trim_pad:
  assumes l: "list_all isWhiteSpace l" and r: "list_all isWhiteSpace r"
  shows "trim (l @ s @ r) = trim s"
proof (cases "list_all isWhiteSpace s")
  case True
  then have "list_all isWhiteSpace (s @ r)" using r by simp
  then have "trimStart (s @ r) = []" "trimStart s = []" using True
    by (simp_all add: trimStart_def list_all_iff)
  then show ?thesis using l by (simp add: trim_def trimStart_pad trimEnd_def)
next
  case False
  then have "\<exists>x\<in>set s. \<not> isWhiteSpace x" by (simp add: list_all_iff)
  then have "trimStart (s @ r) = trimStart s @ r"
    by (auto simp add: trimStart_def dropWhile_append1)
  then show ?thesis using l r by (simp add: trim_def trimStart_pad trimEnd_pad)
qed

lemma sameLetter_toLowerCase_char:
  "sameLetter c d \<Longrightarrow> toLowerCase_char c = toLowerCase_char d"
proof -
  assume "sameLetter c d"
  then consider "c = d"
    | "65 \<le> (of_char c :: nat)" "(of_char c :: nat) \<le> 90" "(of_char d :: nat) = of_char c + 32"
    | "65 \<le> (of_char d :: nat)" "(of_char d :: nat) \<le> 90" "(of_char c :: nat) = of_char d + 32"
    by (auto simp add: sameLetter_def Let_def)
  then show ?thesis
  proof cases
    case 1
    then show ?thesis by simp
  next
    case 2
    have "char_of (of_char c + 32 :: nat) = d" using 2(3) by (metis char_of_char)
    then show ?thesis using 2 by (simp add: toLowerCase_char_def Let_def)
  next
    case 3
    have "char_of (of_char d + 32 :: nat) = c" using 3(3) by (metis char_of_char)
    then show ?thesis using 3 by (simp add: toLowerCase_char_def Let_def)
  qed
qed

lemma sameLetter_toLowerCase:
  "list_all2 sameLetter a b \<Longrightarrow> toLowerCase a = toLowerCase b"
  by (induction rule: list_all2_induct)
     (simp_all add: toLowerCase_def sameLetter_toLowerCase_char)

lemma paris_matches: "isCorrect '' Paris '' ''paris''"
  by code_simp

text \<open>
  Claim C4. The verdict of the comparison does not change when white space is put
  around the user's answer or around the expected answer, nor when letters of either
  are replaced by the same letters in the other case; and \<open>" Paris "\<close> matches
  \<open>"paris"\<close>.
\<close>

theorem isCorrect_ignores_case_and_padding:
  assumes "list_all isWhiteSpace l1" and "list_all isWhiteSpace r1"
    and "list_all isWhiteSpace l2" and "list_all isWhiteSpace r2"
    and "list_all2 sameLetter a a'" and "list_all2 sameLetter e e'"
  shows "(isCorrect (l1 @ a' @ r1) (l2 @ e' @ r2) \<longleftrightarrow> isCorrect a e)
         \<and> isCorrect (l1 @ e' @ r1) (l2 @ e @ r2)
         \<and> isCorrect '' Paris '' ''paris''"
proof -
  have "isCorrect (l1 @ a' @ r1) (l2 @ e' @ r2) \<longleftrightarrow> isCorrect a e"
    using assms
    by (simp add: isCorrect_def toLowerCase_append trim_pad toLowerCase_whitespace
        sameLetter_toLowerCase)
  moreover have "isCorrect (l1 @ e' @ r1) (l2 @ e @ r2)"
    using assms
    by (simp add: isCorrect_def toLowerCase_append trim_pad toLowerCase_whitespace
        sameLetter_toLowerCase)
  ultimately show ?thesis using paris_matches by simp
qed

theorem isCorrect_ignores_case_and_padding_witness:
  "list_all isWhiteSpace [CHR 0x09, CHR '' ''] \<and> list_all isWhiteSpace '' ''
   \<and> list_all2 sameLetter ''pArIs'' ''Paris'' \<and> list_all2 sameLetter ''paris'' ''PARIS''
   \<and> (isCorrect ([CHR 0x09, CHR '' ''] @ ''Paris'' @ '' '') ('' '' @ ''PARIS'' @ [])
        \<longleftrightarrow> isCorrect ''pArIs'' ''paris'')
   \<and> isCorrect ''pArIs'' ''paris''"
proof -
  have l1: "list_all isWhiteSpace [CHR 0x09, CHR '' '']" by code_simp
  have r1: "list_all isWhiteSpace '' ''" by code_simp
  have r2: "list_all isWhiteSpace []" by simp
  have a: "list_all2 sameLetter ''pArIs'' ''Paris''" by code_simp
  have e: "list_all2 sameLetter ''paris'' ''PARIS''" by code_simp
  have c: "isCorrect ''pArIs'' ''paris''" by code_simp
  show ?thesis
    using isCorrect_ignores_case_and_padding [OF l1 r1 r1 r2 a e] l1 r1 a e c by simp
qed

section \<open>Reward\<close>

lemma diffMult_spec: "diffMult config = spec_difficultyMultiplier (difficulty config)"
  by (cases "difficulty config")
     (simp_all add: diffMult_def DIFFICULTY_MULTIPLIER_def spec_difficultyMultiplier_def)

lemma earnedCoins_spec:
  "earnedCoins config secs st = spec_reward (difficulty config) (enableTimer config) secs st"
  by (simp add: earnedCoins_def spec_reward_def diffMult_spec timeBonus_def streakBonus_def)

lemma handleSubmit_correct_coins:
  "isCorrect (selectedAnswer s) (correctAnswer q) \<Longrightarrow>
   coins (handleSubmit config q s) = coins s + earnedCoins config (timeLeft s) (streak s)"
  by (simp add: handleSubmit_def Let_def)

text \<open>
  Claim C1. On a correct submission the coins grow by the reward of the specification's
  formula, computed from the difficulty, the timer flag, the seconds left and the streak
  before the submission; for Easy, the timer on, 10 seconds left and a streak of 3 the
  reward is 156.
\<close>

theorem handleSubmit_reward:
  assumes "isCorrect (selectedAnswer s) (correctAnswer q)"
  shows "coins (handleSubmit config q s) - coins s
           = spec_reward (difficulty config) (enableTimer config) (timeLeft s) (streak s)
         \<and> (difficulty config = EASY \<and> enableTimer config \<and> timeLeft s = 10 \<and> streak s = 3
              \<longrightarrow> coins (handleSubmit config q s) - coins s = 156)"
proof -
  have "coins (handleSubmit config q s) - coins s
           = spec_reward (difficulty config) (enableTimer config) (timeLeft s) (streak s)"
    using assms by (simp add: handleSubmit_correct_coins earnedCoins_spec)
  moreover have "spec_reward EASY True 10 3 = 156"
    by (simp add: spec_reward_def spec_difficultyMultiplier_def)
  ultimately show ?thesis by auto
qed

theorem handleSubmit_reward_witness:
  "isCorrect (selectedAnswer exState) (correctAnswer exQuestion)
   \<and> difficulty exConfig = EASY \<and> enableTimer exConfig
   \<and> timeLeft exState = 10 \<and> streak exState = 3
   \<and> coins exState = 400 \<and> coins (handleSubmit exConfig exQuestion exState) = 556"
proof -
  have c: "isCorrect (selectedAnswer exState) (correctAnswer exQuestion)"
    by code_simp
  have "difficulty exConfig = EASY \<and> enableTimer exConfig
        \<and> timeLeft exState = 10 \<and> streak exState = 3 \<and> coins exState = 400"
    by (simp add: exConfig_def exState_def)
  then show ?thesis
    using handleSubmit_reward [OF c, of exConfig] c by simp
qed

text \<open>
  The number that is rounded is a whole number of fifths, so it is never halfway between
  two integers: rounding the program's floating-point value and rounding the exact value
  give the same coins as long as the two values differ by less than a tenth.
\<close>

lemma base_even: "\<exists>e::int. 100 * diffMult config + timeBonus config secs = 2 * real_of_int e"
proof -
  obtain a :: int where a: "100 * diffMult config = 2 * real_of_int a"
  proof (cases "difficulty config")
    case EASY
    then have "100 * diffMult config = 2 * real_of_int 50"
      by (simp add: diffMult_def DIFFICULTY_MULTIPLIER_def)
    then show ?thesis using that by blast
  next
    case MEDIUM
    then have "100 * diffMult config = 2 * real_of_int 75"
      by (simp add: diffMult_def DIFFICULTY_MULTIPLIER_def)
    then show ?thesis using that by blast
  next
    case HARD
    then have "100 * diffMult config = 2 * real_of_int 100"
      by (simp add: diffMult_def DIFFICULTY_MULTIPLIER_def)
    then show ?thesis using that by blast
  next
    case VERY_HARD
    then have "100 * diffMult config = 2 * real_of_int 150"
      by (simp add: diffMult_def DIFFICULTY_MULTIPLIER_def)
    then show ?thesis using that by blast
  qed
  obtain b :: int where b: "timeBonus config secs = 2 * real_of_int b"
  proof (cases "enableTimer config")
    case True
    then have "timeBonus config secs = 2 * real_of_int secs" by (simp add: timeBonus_def)
    then show ?thesis using that by blast
  next
    case False
    then have "timeBonus config secs = 2 * real_of_int 0" by (simp add: timeBonus_def)
    then show ?thesis using that by blast
  qed
  have "100 * diffMult config + timeBonus config secs = 2 * real_of_int (a + b)"
    by (simp add: a b)
  then show ?thesis by blast
qed

lemma reward_in_fifths:
  "\<exists>k::int. (100 * diffMult config + timeBonus config secs) * (1 + streakBonus st)
      = real_of_int k / 5"
proof -
  obtain e :: int where e: "100 * diffMult config + timeBonus config secs = 2 * real_of_int e"
    using base_even by blast
  show ?thesis
  proof (cases "5 \<le> st")
    case True
    then have "streakBonus st = 1 / 2" by (simp add: streakBonus_def)
    then have "(100 * diffMult config + timeBonus config secs) * (1 + streakBonus st)
        = real_of_int (15 * e) / 5"
      by (simp add: e)
    then show ?thesis by blast
  next
    case False
    then have sb: "streakBonus st = real_of_int st / 10" by (simp add: streakBonus_def)
    have "(2 * real_of_int e) * (1 + real_of_int st / 10) = real_of_int (e * (10 + st)) / 5"
      by (simp add: field_simps)
    then have "(100 * diffMult config + timeBonus config secs) * (1 + streakBonus st)
        = real_of_int (e * (10 + st)) / 5"
      by (simp only: e sb)
    then show ?thesis by blast
  qed
qed

lemma fifth_not_half: "real_of_int k / 5 \<noteq> real_of_int n + 1 / 2"
proof
  assume "real_of_int k / 5 = real_of_int n + 1 / 2"
  then have "real_of_int (2 * k) = real_of_int (10 * n + 5)" by (simp add: field_simps)
  then have "2 * k = 10 * n + 5" by (simp only: of_int_eq_iff)
  then show False by presburger
qed

lemma reward_never_halfway:
  "(100 * diffMult config + timeBonus config secs) * (1 + streakBonus st)
     \<noteq> real_of_int n + 1 / 2"
  using reward_in_fifths [of config secs st] fifth_not_half by metis

section \<open>Rank\<close>

text \<open>
  Claim C7. The rank of a percentage is the tier of the specification: the top tier
  exactly at 100, the second from 80 on, the third from 50 to 79, the lowest below 50;
  100 gives the top tier and 79 the third; and a session in which every question was
  answered correctly ends with the top tier.
\<close>

theorem getRank_tiers:
  "tierOfRank (getRank pct) = spec_tier pct
   \<and> (rank_title (getRank pct) = ''Galactic Overlord'' \<longleftrightarrow> pct = 100)
   \<and> (rank_title (getRank pct) = ''Star Voyager'' \<longleftrightarrow> 80 \<le> pct \<and> pct \<noteq> 100)
   \<and> (rank_title (getRank pct) = ''Space Cadet'' \<longleftrightarrow> 50 \<le> pct \<and> pct < 80)
   \<and> (rank_title (getRank pct) = ''Rocket Rookie'' \<longleftrightarrow> pct < 50)
   \<and> rank_title (getRank 100) = ''Galactic Overlord''
   \<and> rank_title (getRank 79) = ''Space Cadet''
   \<and> (questions quiz \<noteq> [] \<and> score s = int (length (questions quiz))
        \<longrightarrow> rank_title (sessionRank quiz s) = ''Galactic Overlord'')"
  by (simp add: getRank_def tierOfRank_def spec_tier_def sessionRank_def percentage_def)

theorem getRank_tiers_witness:
  "questions exQuiz \<noteq> [] \<and> score (exState\<lparr>score := 3\<rparr>) = int (length (questions exQuiz))
   \<and> rank_title (sessionRank exQuiz (exState\<lparr>score := 3\<rparr>)) = ''Galactic Overlord''
   \<and> tierOfRank (getRank 79) = 3"
proof -
  have h: "questions exQuiz \<noteq> [] \<and> score (exState\<lparr>score := 3\<rparr>) = int (length (questions exQuiz))"
    by (simp add: exQuiz_def)
  have "spec_tier 79 = 3" by (simp add: spec_tier_def)
  then show ?thesis
    using getRank_tiers [of 79 exQuiz "exState\<lparr>score := 3\<rparr>"] h by simp
qed

section \<open>Timer\<close>

lemma maxStreakEffect_fields:
  "score (maxStreakEffect s) = score s" "coins (maxStreakEffect s) = coins s"
  "streak (maxStreakEffect s) = streak s" "showResult (maxStreakEffect s) = showResult s"
  "timeLeft (maxStreakEffect s) = timeLeft s" "currentIdx (maxStreakEffect s) = currentIdx s"
  "quizFinished (maxStreakEffect s) = quizFinished s"
  "timerActive (maxStreakEffect s) = timerActive s"
  "selectedAnswer (maxStreakEffect s) = selectedAnswer s"
  by (simp_all add: maxStreakEffect_def)

lemma dispatch_Tick_running:
  assumes "currentQ quiz s = Some q" "\<not> quizFinished s" "timerRunning config s"
  shows "dispatch quiz config Tick s = Some (maxStreakEffect (timerTick s))"
  using assms by (simp add: dispatch_def runEffects_def timerTick_def handleTimeRunOut_def)

text \<open>A running timer that shows \<open>n + 1\<close> seconds locks the question after \<open>n + 1\<close> ticks.\<close>

lemma countdown:
  assumes "enableTimer config"
  shows "currentQ quiz s = Some q \<Longrightarrow> \<not> quizFinished s \<Longrightarrow> \<not> showResult s \<Longrightarrow>
     timerActive s \<Longrightarrow> timeLeft s = int (Suc n) \<Longrightarrow>
     \<exists>s'. run quiz config (replicate (Suc n) Tick) s = Some s' \<and> showResult s' \<and> streak s' = 0
          \<and> score s' = score s \<and> coins s' = coins s \<and> timeLeft s' = 0
          \<and> currentIdx s' = currentIdx s \<and> \<not> quizFinished s'"
proof (induction n arbitrary: s)
  case 0
  then have r: "timerRunning config s" using assms by (simp add: timerRunning_def)
  show ?case
    using 0 by (simp add: dispatch_Tick_running [OF 0(1) 0(2) r] maxStreakEffect_fields
        timerTick_def handleTimeRunOut_def)
next
  case (Suc n)
  then have r: "timerRunning config s" using assms by (simp add: timerRunning_def)
  let ?t = "maxStreakEffect (timerTick s)"
  have d: "dispatch quiz config Tick s = Some ?t"
    by (rule dispatch_Tick_running [OF Suc.prems(1) Suc.prems(2) r])
  have tick: "timerTick s = s\<lparr>timeLeft := int (Suc n)\<rparr>"
    using Suc.prems by (simp add: timerTick_def)
  have q: "currentQ quiz ?t = Some q"
    using Suc.prems(1)
    by (simp add: currentQ_def maxStreakEffect_fields tick split: if_splits)
  have "\<exists>s'. run quiz config (replicate (Suc n) Tick) ?t = Some s' \<and> showResult s'
          \<and> streak s' = 0 \<and> score s' = score ?t \<and> coins s' = coins ?t \<and> timeLeft s' = 0
          \<and> currentIdx s' = currentIdx ?t \<and> \<not> quizFinished s'"
    using Suc.prems by (intro Suc.IH q) (simp_all add: maxStreakEffect_fields tick)
  then show ?case
    using d by (simp add: maxStreakEffect_fields tick)
qed

lemma dispatch_Next_advance:
  assumes "enableTimer config" "\<not> quizFinished s" "showResult s"
    "Suc (currentIdx s) < length (questions quiz)"
  shows "\<exists>s'. dispatch quiz config Next s = Some s' \<and> currentIdx s' = Suc (currentIdx s)
      \<and> \<not> showResult s' \<and> selectedAnswer s' = [] \<and> timeLeft s' = secondsPerQuestion config
      \<and> timerActive s' \<and> score s' = score s \<and> coins s' = coins s"
  using assms
  by (simp add: dispatch_def currentQ_def handleNext_def runEffects_def resetTimerEffect_def
      maxStreakEffect_fields)

lemma initialState_timer:
  "enableTimer config \<Longrightarrow>
   timeLeft (initialState config) = secondsPerQuestion config \<and> timerActive (initialState config)"
  by (simp add: initialState_def resetTimerEffect_def maxStreakEffect_fields)

text \<open>
  Claim C5. With the timer enabled: a question that is still awaiting its answer, with
  the timer running and \<open>n \<ge> 1\<close> seconds left, is locked after \<open>n\<close> ticks, the
  result shown, the streak at zero, the score and the coins as they were; advancing from
  a locked question to the next one sets the timer to the configured seconds per
  question and starts it; and the first question starts with the configured seconds.
\<close>

theorem timer_expiry_and_reset:
  assumes "enableTimer config" and "\<not> quizFinished s"
    and "currentIdx s < length (questions quiz)"
  shows "(timerActive s \<and> \<not> showResult s \<and> 1 \<le> timeLeft s \<longrightarrow>
           (\<exists>s'. run quiz config (replicate (nat (timeLeft s)) Tick) s = Some s'
                 \<and> showResult s' \<and> streak s' = 0 \<and> score s' = score s
                 \<and> coins s' = coins s \<and> timeLeft s' = 0 \<and> currentIdx s' = currentIdx s))
       \<and> (showResult s \<and> Suc (currentIdx s) < length (questions quiz) \<longrightarrow>
           (\<exists>s'. dispatch quiz config Next s = Some s' \<and> currentIdx s' = Suc (currentIdx s)
                 \<and> \<not> showResult s' \<and> timeLeft s' = secondsPerQuestion config
                 \<and> timerActive s'))
       \<and> timeLeft (initialState config) = secondsPerQuestion config"
proof (intro conjI impI)
  assume a: "timerActive s \<and> \<not> showResult s \<and> 1 \<le> timeLeft s"
  define n where "n = nat (timeLeft s - 1)"
  have n: "timeLeft s = int (Suc n)" using a by (simp add: n_def)
  then have m: "nat (timeLeft s) = Suc n" by simp
  have q: "currentQ quiz s = Some (questions quiz ! currentIdx s)"
    using assms(3) by (simp add: currentQ_def)
  have "\<exists>s'. run quiz config (replicate (Suc n) Tick) s = Some s' \<and> showResult s'
          \<and> streak s' = 0 \<and> score s' = score s \<and> coins s' = coins s \<and> timeLeft s' = 0
          \<and> currentIdx s' = currentIdx s \<and> \<not> quizFinished s'"
    using a by (intro countdown [OF assms(1) q assms(2) _ _ n]) simp_all
  then show "\<exists>s'. run quiz config (replicate (nat (timeLeft s)) Tick) s = Some s'
                 \<and> showResult s' \<and> streak s' = 0 \<and> score s' = score s
                 \<and> coins s' = coins s \<and> timeLeft s' = 0 \<and> currentIdx s' = currentIdx s"
    unfolding m by blast
next
  assume "showResult s \<and> Suc (currentIdx s) < length (questions quiz)"
  then show "\<exists>s'. dispatch quiz config Next s = Some s' \<and> currentIdx s' = Suc (currentIdx s)
                 \<and> \<not> showResult s' \<and> timeLeft s' = secondsPerQuestion config
                 \<and> timerActive s'"
    using dispatch_Next_advance [OF assms(1) assms(2)] by blast
next
  show "timeLeft (initialState config) = secondsPerQuestion config"
    using initialState_timer [OF assms(1)] by simp
qed

theorem timer_expiry_and_reset_witness:
  "enableTimer exConfig \<and> \<not> quizFinished exState \<and> \<not> quizFinished exLocked
   \<and> currentIdx exState < length (questions exQuiz)
   \<and> timerActive exState \<and> \<not> showResult exState \<and> timeLeft exState = 10
   \<and> (\<exists>s'. run exQuiz exConfig (replicate 10 Tick) exState = Some s'
           \<and> showResult s' \<and> streak s' = 0 \<and> score s' = 1 \<and> coins s' = 400
           \<and> timeLeft s' = 0)
   \<and> showResult exLocked \<and> Suc (currentIdx exLocked) < length (questions exQuiz)
   \<and> (\<exists>s'. dispatch exQuiz exConfig Next exLocked = Some s' \<and> currentIdx s' = 2
           \<and> \<not> showResult s' \<and> timeLeft s' = 30 \<and> timerActive s')"
proof -
  have c: "enableTimer exConfig" "secondsPerQuestion exConfig = 30"
    by (simp_all add: exConfig_def)
  have f: "\<not> quizFinished exState" "\<not> quizFinished exLocked"
    by (simp_all add: exState_def exLocked_def)
  have i: "currentIdx exState < length (questions exQuiz)"
    "currentIdx exLocked < length (questions exQuiz)"
    by (simp_all add: exState_def exLocked_def exQuiz_def)
  have a: "timerActive exState \<and> \<not> showResult exState \<and> timeLeft exState = 10
      \<and> score exState = 1 \<and> coins exState = 400"
    by (simp add: exState_def)
  have b: "showResult exLocked \<and> Suc (currentIdx exLocked) < length (questions exQuiz)
      \<and> currentIdx exLocked = 1"
    by (simp add: exState_def exLocked_def exQuiz_def)
  show ?thesis
    using timer_expiry_and_reset [OF c(1) f(1) i(1)] timer_expiry_and_reset [OF c(1) f(2) i(2)]
      c f i a b
    by (auto simp add: numeral_2_eq_2)
qed

section \<open>Score and coins\<close>

lemma diffMult_pos: "1 \<le> diffMult config"
  by (cases "difficulty config") (simp_all add: diffMult_def DIFFICULTY_MULTIPLIER_def)

lemma earnedCoins_nonneg:
  assumes "0 \<le> secs" "0 \<le> st"
  shows "0 \<le> earnedCoins config secs st"
proof -
  have a: "0 \<le> 100 * diffMult config + timeBonus config secs"
    using diffMult_pos [of config] assms(1) by (simp add: timeBonus_def add_nonneg_nonneg)
  have b: "0 \<le> 1 + streakBonus st"
    using assms(2) by (simp add: streakBonus_def)
  have "0 \<le> (100 * diffMult config + timeBonus config secs) * (1 + streakBonus st)"
    using a b by (rule mult_nonneg_nonneg)
  then have "0 \<le> round ((100 * diffMult config + timeBonus config secs) * (1 + streakBonus st))"
    by (simp add: round_def)
  then show ?thesis by (simp add: earnedCoins_def)
qed

lemma handleSubmit_mono:
  assumes "countersSane s"
  shows "score s \<le> score (handleSubmit config q s) \<and> coins s \<le> coins (handleSubmit config q s)
         \<and> countersSane (handleSubmit config q s)"
  using assms earnedCoins_nonneg [of "timeLeft s" "streak s" config]
  by (simp add: handleSubmit_def Let_def countersSane_def)

lemma timerTick_mono:
  assumes "countersSane s"
  shows "score s = score (timerTick s) \<and> coins s = coins (timerTick s)
         \<and> countersSane (timerTick s)"
  using assms by (simp add: timerTick_def handleTimeRunOut_def countersSane_def)

lemma handleAnswer_mono:
  assumes "countersSane s"
  shows "score s = score (handleAnswer a s) \<and> coins s = coins (handleAnswer a s)
         \<and> countersSane (handleAnswer a s)"
  using assms by (simp add: handleAnswer_def countersSane_def)

lemma handleNext_mono:
  assumes "countersSane s"
  shows "score s = score (handleNext quiz s) \<and> coins s = coins (handleNext quiz s)
         \<and> countersSane (handleNext quiz s)"
  using assms by (simp add: handleNext_def countersSane_def)

lemma runEffects_mono:
  assumes "countersSane s'" "0 \<le> secondsPerQuestion config"
  shows "score (runEffects config s s') = score s' \<and> coins (runEffects config s s') = coins s'
         \<and> countersSane (runEffects config s s')"
  using assms
  by (simp add: runEffects_def resetTimerEffect_def maxStreakEffect_fields countersSane_def)

lemma dispatch_mono:
  assumes "0 \<le> secondsPerQuestion config" "countersSane s"
    "dispatch quiz config ev s = Some s'"
  shows "score s \<le> score s' \<and> coins s \<le> coins s' \<and> countersSane s'"
proof (cases "quizFinished s")
  case True
  then show ?thesis using assms by (simp add: dispatch_def)
next
  case False
  then obtain q where q: "currentQ quiz s = Some q"
    using assms(3) by (auto simp add: dispatch_def split: option.splits)
  define t where "t = (case ev of
               Answer a \<Rightarrow> handleAnswer a s
             | Submit \<Rightarrow>
                 if \<not> showResult s \<and> selectedAnswer s \<noteq> [] then handleSubmit config q s else s
             | Next \<Rightarrow> if showResult s then handleNext quiz s else s
             | Tick \<Rightarrow> if timerRunning config s then timerTick s else s)"
  have s': "s' = runEffects config s t"
    using assms(3) False q by (simp add: dispatch_def t_def)
  have "score s \<le> score t \<and> coins s \<le> coins t \<and> countersSane t"
    using assms(2) handleSubmit_mono [OF assms(2), of config q] timerTick_mono [OF assms(2)]
      handleAnswer_mono [OF assms(2)] handleNext_mono [OF assms(2), of quiz]
    by (cases ev) (simp_all add: t_def)
  then show ?thesis
    using runEffects_mono [OF _ assms(1), of t s] by (simp add: s')
qed

lemma run_mono:
  assumes "0 \<le> secondsPerQuestion config"
  shows "countersSane s \<Longrightarrow> run quiz config evs s = Some s' \<Longrightarrow>
         score s \<le> score s' \<and> coins s \<le> coins s' \<and> countersSane s'"
proof (induction evs arbitrary: s)
  case Nil
  then show ?case by simp
next
  case (Cons ev evs)
  then obtain t where t: "dispatch quiz config ev s = Some t" "run quiz config evs t = Some s'"
    by (auto split: option.splits)
  have "score s \<le> score t \<and> coins s \<le> coins t \<and> countersSane t"
    by (rule dispatch_mono [OF assms Cons.prems(1) t(1)])
  moreover have "score t \<le> score s' \<and> coins t \<le> coins s' \<and> countersSane s'"
    using calculation t(2) by (intro Cons.IH) simp_all
  ultimately show ?case by linarith
qed

lemma run_append:
  "run quiz config (evs @ evs') s =
     (case run quiz config evs s of None \<Rightarrow> None | Some t \<Rightarrow> run quiz config evs' t)"
  by (induction evs arbitrary: s) (simp_all split: option.splits)

lemma initialState_sane:
  "0 \<le> secondsPerQuestion config \<Longrightarrow> countersSane (initialState config)"
  by (simp add: initialState_def resetTimerEffect_def maxStreakEffect_fields countersSane_def)

text \<open>
  Claim C9. In a session whose configured seconds per question are not negative (the
  configuration form offers 10 to 120), take the state after any sequence of events
  (choosing an answer, submitting, a timer tick, advancing) and the state after any
  continuation of it: the later score and the later coins are at least the earlier ones,
  and both start at zero.
\<close>

theorem counters_monotone:
  assumes "0 \<le> secondsPerQuestion config"
    and "run quiz config evs (initialState config) = Some s"
    and "run quiz config (evs @ evs') (initialState config) = Some s'"
  shows "score s \<le> score s' \<and> coins s \<le> coins s' \<and> 0 \<le> score s \<and> 0 \<le> coins s"
proof -
  have i: "countersSane (initialState config)" by (rule initialState_sane [OF assms(1)])
  have s: "score (initialState config) \<le> score s \<and> coins (initialState config) \<le> coins s
      \<and> countersSane s"
    by (rule run_mono [OF assms(1) i assms(2)])
  have "run quiz config evs' s = Some s'"
    using assms(2,3) by (simp add: run_append)
  then have "score s \<le> score s' \<and> coins s \<le> coins s' \<and> countersSane s'"
    using s by (intro run_mono [OF assms(1)]) simp_all
  moreover have "score (initialState config) = 0" "coins (initialState config) = 0"
    by (simp_all add: initialState_def resetTimerEffect_def maxStreakEffect_fields)
  ultimately show ?thesis using s by simp
qed

theorem counters_monotone_witness:
  "0 \<le> secondsPerQuestion exConfig
   \<and> run exQuiz exConfig [] (initialState exConfig) = Some (initialState exConfig)
   \<and> run exQuiz exConfig ([] @ [Answer '' Paris '', Submit]) (initialState exConfig)
       = Some exAfterSubmit
   \<and> score (initialState exConfig) \<le> score exAfterSubmit
   \<and> coins (initialState exConfig) \<le> coins exAfterSubmit
   \<and> coins exAfterSubmit = 160"
proof -
  have h1: "0 \<le> secondsPerQuestion exConfig" by (simp add: exConfig_def)
  have h2: "run exQuiz exConfig [] (initialState exConfig) = Some (initialState exConfig)"
    by simp
  have h3: "run exQuiz exConfig ([] @ [Answer '' Paris '', Submit]) (initialState exConfig)
       = Some exAfterSubmit"
    by code_simp
  have "coins exAfterSubmit = 160" by (simp add: exAfterSubmit_def)
  then show ?thesis
    using counters_monotone [OF h1 h2 h3] h1 h2 h3 by simp
qed

section \<open>Playback scheduling\<close>

lemma int16Data_length: "length (int16Data bytes) = length bytes div 2"
  by (induction bytes rule: int16Data.induct) simp_all

lemma float32Data_length: "length (float32Data bytes) = length bytes div 2"
  by (simp add: float32Data_def int16Data_length)

lemma playAudioChunk_decoded:
  assumes "even (length bytes)" "bytes \<noteq> []"
  shows "playAudioChunk (Some bytes) now s =
     s\<lparr>scheduled := scheduled s @ [(max now (nextStartTimeRef s), float32Data bytes)],
       nextStartTimeRef := max now (nextStartTimeRef s) + bufferDuration (float32Data bytes)\<rparr>"
proof -
  have "2 \<le> length bytes" using assms by (cases bytes) (auto simp add: Suc_le_eq)
  then have "length (float32Data bytes) \<noteq> 0" by (simp add: float32Data_length)
  then have "float32Data bytes \<noteq> []" by simp
  then show ?thesis using assms(1) by (simp add: playAudioChunk_def Let_def)
qed

lemma playAudioChunk_cases:
  "playAudioChunk decoded now s = s
   \<or> (\<exists>samples. playAudioChunk decoded now s =
         s\<lparr>scheduled := scheduled s @ [(max now (nextStartTimeRef s), samples)],
           nextStartTimeRef := max now (nextStartTimeRef s) + bufferDuration samples\<rparr>)"
  by (auto simp add: playAudioChunk_def Let_def split: option.splits)

lemma nonOverlapping_snoc:
  "nonOverlapping xs \<Longrightarrow>
   (xs \<noteq> [] \<longrightarrow> fst (last xs) + bufferDuration (snd (last xs)) \<le> fst x) \<Longrightarrow>
   nonOverlapping (xs @ [x])"
  by (induction xs rule: nonOverlapping.induct) simp_all

lemma playAudioChunk_sane:
  assumes "scheduleSane s"
  shows "scheduleSane (playAudioChunk decoded now s)"
proof -
  consider "playAudioChunk decoded now s = s"
    | samples where "playAudioChunk decoded now s =
         s\<lparr>scheduled := scheduled s @ [(max now (nextStartTimeRef s), samples)],
           nextStartTimeRef := max now (nextStartTimeRef s) + bufferDuration samples\<rparr>"
    using playAudioChunk_cases by blast
  then show ?thesis
  proof cases
    case 1
    then show ?thesis using assms by simp
  next
    case 2
    have "nonOverlapping (scheduled s @ [(max now (nextStartTimeRef s), samples)])"
      using assms by (intro nonOverlapping_snoc) (auto simp add: scheduleSane_def)
    then show ?thesis by (simp add: 2 scheduleSane_def)
  qed
qed

lemma playAll_sane: "scheduleSane s \<Longrightarrow> scheduleSane (playAll arrivals s)"
  by (induction arrivals s rule: playAll.induct) (simp_all add: playAudioChunk_sane)

lemma playAll_on_time:
  assumes "0 < k" and d: "d = real k / 24000"
  shows "\<forall>a\<in>set arrivals. \<exists>bytes. snd a = Some bytes \<and> length bytes = 2 * k \<Longrightarrow>
     \<forall>n<length arrivals. fst (arrivals ! n) \<le> nextStartTimeRef s + real n * d \<Longrightarrow>
     map fst (scheduled (playAll arrivals s))
       = map fst (scheduled s)
         @ map (\<lambda>n. nextStartTimeRef s + real n * d) [0..<length arrivals]
     \<and> map (\<lambda>x. bufferDuration (snd x)) (scheduled (playAll arrivals s))
       = map (\<lambda>x. bufferDuration (snd x)) (scheduled s)
         @ replicate (length arrivals) d"
proof (induction arrivals arbitrary: s)
  case Nil
  then show ?case by simp
next
  case (Cons a rest)
  obtain now decoded where a: "a = (now, decoded)" by (cases a)
  obtain bytes where bytes: "decoded = Some bytes" "length bytes = 2 * k"
    using Cons.prems(1) a by auto
  have ne: "bytes \<noteq> []" "even (length bytes)" using bytes(2) assms(1) by auto
  have dur: "bufferDuration (float32Data bytes) = d"
    by (simp add: bufferDuration_def float32Data_length bytes(2) d)
  have "fst ((a # rest) ! 0) \<le> nextStartTimeRef s + real 0 * d"
    using Cons.prems(2) by blast
  then have early: "now \<le> nextStartTimeRef s" by (simp add: a)
  define s1 where "s1 = playAudioChunk decoded now s"
  have s1: "scheduled s1 = scheduled s @ [(nextStartTimeRef s, float32Data bytes)]"
    "nextStartTimeRef s1 = nextStartTimeRef s + d"
    using early by (simp_all add: s1_def bytes(1) playAudioChunk_decoded [OF ne(2) ne(1)] dur max_def)
  have later: "\<forall>n<length rest. fst (rest ! n) \<le> nextStartTimeRef s1 + real n * d"
  proof (intro allI impI)
    fix n assume "n < length rest"
    then have "fst ((a # rest) ! Suc n) \<le> nextStartTimeRef s + real (Suc n) * d"
      using Cons.prems(2) by (metis Suc_less_eq length_Cons)
    then show "fst (rest ! n) \<le> nextStartTimeRef s1 + real n * d"
      by (simp add: s1(2) algebra_simps)
  qed
  have ih: "map fst (scheduled (playAll rest s1))
       = map fst (scheduled s1)
         @ map (\<lambda>n. nextStartTimeRef s1 + real n * d) [0..<length rest]
     \<and> map (\<lambda>x. bufferDuration (snd x)) (scheduled (playAll rest s1))
       = map (\<lambda>x. bufferDuration (snd x)) (scheduled s1)
         @ replicate (length rest) d"
    using Cons.prems(1) later by (intro Cons.IH) simp_all
  have shift: "map (\<lambda>n. nextStartTimeRef s + real n * d) [0..<length (a # rest)]
      = nextStartTimeRef s
        # map (\<lambda>n. nextStartTimeRef s1 + real n * d) [0..<length rest]"
    by (simp add: map_upt_Suc s1(2) algebra_simps del: upt_Suc)
  show ?case
    using ih unfolding shift
    by (simp add: a s1_def [symmetric] s1(1) dur replicate_append_same)
qed


lemma playAll_equal_frames:
  assumes k: "0 < k" and ne: "arrivals \<noteq> []"
    and frames: "\<forall>a\<in>set arrivals. \<exists>bytes. snd a = Some bytes \<and> length bytes = 2 * k"
    and fresh: "scheduled s0 = []"
    and first: "nextStartTimeRef s0 \<le> fst (arrivals ! 0)"
    and on_time: "\<forall>n<length arrivals.
        fst (arrivals ! n) \<le> fst (arrivals ! 0) + real n * (real k / 24000)"
  shows "map fst (scheduled (playAll arrivals s0))
           = map (\<lambda>n. fst (arrivals ! 0) + real n * (real k / 24000)) [0..<length arrivals]
         \<and> map (\<lambda>x. bufferDuration (snd x)) (scheduled (playAll arrivals s0))
           = replicate (length arrivals) (real k / 24000)"
proof -
  obtain now decoded rest where a: "arrivals = (now, decoded) # rest"
    using ne by (cases arrivals) auto
  obtain bytes where bytes: "decoded = Some bytes" "length bytes = 2 * k"
    using frames a by auto
  have ev: "even (length bytes)" "bytes \<noteq> []" using bytes(2) k by auto
  define s1 where "s1 = s0\<lparr>nextStartTimeRef := now\<rparr>"
  have "nextStartTimeRef s0 \<le> now" using first by (simp add: a)
  then have "playAudioChunk decoded now s0 = playAudioChunk decoded now s1"
    by (simp add: bytes(1) playAudioChunk_decoded [OF ev] s1_def max_def)
  then have same: "playAll arrivals s0 = playAll arrivals s1" by (simp add: a)
  have c: "nextStartTimeRef s1 = fst (arrivals ! 0)" "scheduled s1 = []"
    by (simp_all add: s1_def a fresh)
  have "\<forall>n<length arrivals.
      fst (arrivals ! n) \<le> nextStartTimeRef s1 + real n * (real k / 24000)"
    using on_time by (simp add: c(1))
  then show ?thesis
    using playAll_on_time [OF k refl frames, of s1] by (simp add: same c)
qed

text \<open>
  Claim C2. A frame that decodes is scheduled at the maximum of the playback clock and
  the cursor, and the cursor moves to that start plus the duration of the frame. For any
  sequence of arrivals the scheduled buffers do not overlap. When all frames have the
  same duration \<open>d\<close> (\<open>k\<close> samples at 24000 per second), the session started no
  later than the first arrival, and every frame arrives on time, that is, the \<open>n\<close>-th
  arrival (from 0) is no later than the first arrival plus \<open>n \<times> d\<close>, then every frame
  is scheduled, the \<open>n\<close>-th at the maximum of its arrival clock and the first arrival
  plus \<open>n \<times> d\<close>, and each frame starts when the one before it ends.
\<close>

theorem playback_schedule:
  assumes "scheduled s0 = []"
  shows "(\<forall>bytes now s. even (length bytes) \<and> bytes \<noteq> [] \<longrightarrow>
            scheduled (playAudioChunk (Some bytes) now s)
              = scheduled s @ [(max now (nextStartTimeRef s), float32Data bytes)]
            \<and> nextStartTimeRef (playAudioChunk (Some bytes) now s)
              = max now (nextStartTimeRef s) + bufferDuration (float32Data bytes))
       \<and> nonOverlapping (scheduled (playAll arrivals s0))
       \<and> (0 < k \<and> arrivals \<noteq> []
            \<and> (\<forall>a\<in>set arrivals. \<exists>bytes. snd a = Some bytes \<and> length bytes = 2 * k)
            \<and> nextStartTimeRef s0 \<le> fst (arrivals ! 0)
            \<and> (\<forall>n<length arrivals.
                  fst (arrivals ! n) \<le> fst (arrivals ! 0) + real n * (real k / 24000))
          \<longrightarrow> length (scheduled (playAll arrivals s0)) = length arrivals
            \<and> (\<forall>n<length arrivals.
                  startOf (playAll arrivals s0) n
                    = max (fst (arrivals ! n)) (fst (arrivals ! 0) + real n * (real k / 24000)))
            \<and> (\<forall>n. Suc n < length arrivals \<longrightarrow>
                  startOf (playAll arrivals s0) (Suc n) = endOf (playAll arrivals s0) n))"
proof -
  have step: "\<forall>bytes now s. even (length bytes) \<and> bytes \<noteq> [] \<longrightarrow>
            scheduled (playAudioChunk (Some bytes) now s)
              = scheduled s @ [(max now (nextStartTimeRef s), float32Data bytes)]
            \<and> nextStartTimeRef (playAudioChunk (Some bytes) now s)
              = max now (nextStartTimeRef s) + bufferDuration (float32Data bytes)"
    by (simp add: playAudioChunk_decoded)
  have "scheduleSane s0" using assms by (simp add: scheduleSane_def)
  then have "scheduleSane (playAll arrivals s0)" by (rule playAll_sane)
  then have apart: "nonOverlapping (scheduled (playAll arrivals s0))"
    by (simp add: scheduleSane_def)
  have formula: "length (scheduled (playAll arrivals s0)) = length arrivals
            \<and> (\<forall>n<length arrivals.
                  startOf (playAll arrivals s0) n
                    = max (fst (arrivals ! n)) (fst (arrivals ! 0) + real n * (real k / 24000)))
            \<and> (\<forall>n. Suc n < length arrivals \<longrightarrow>
                  startOf (playAll arrivals s0) (Suc n) = endOf (playAll arrivals s0) n)"
    if h: "0 < k \<and> arrivals \<noteq> []
            \<and> (\<forall>a\<in>set arrivals. \<exists>bytes. snd a = Some bytes \<and> length bytes = 2 * k)
            \<and> nextStartTimeRef s0 \<le> fst (arrivals ! 0)
            \<and> (\<forall>n<length arrivals.
                  fst (arrivals ! n) \<le> fst (arrivals ! 0) + real n * (real k / 24000))"
  proof -
    let ?S = "playAll arrivals s0"
    let ?d = "real k / 24000"
    have m: "map fst (scheduled ?S)
        = map (\<lambda>n. fst (arrivals ! 0) + real n * ?d) [0..<length arrivals]"
      and r: "map (\<lambda>x. bufferDuration (snd x)) (scheduled ?S) = replicate (length arrivals) ?d"
      using playAll_equal_frames [of k arrivals s0] h assms by simp_all
    have len: "length (scheduled ?S) = length arrivals"
      using arg_cong [OF m, of length] by simp
    have st: "startOf ?S n = fst (arrivals ! 0) + real n * ?d" if "n < length arrivals" for n
    proof -
      have "map fst (scheduled ?S) ! n = fst (arrivals ! 0) + real n * ?d"
        using that by (simp add: m)
      then show ?thesis using that len by (simp add: startOf_def)
    qed
    have du: "bufferDuration (snd (scheduled ?S ! n)) = ?d" if "n < length arrivals" for n
    proof -
      have "map (\<lambda>x. bufferDuration (snd x)) (scheduled ?S) ! n = ?d"
        using that by (simp add: r)
      then show ?thesis using that len by simp
    qed
    have a: "\<forall>n<length arrivals.
          startOf ?S n = max (fst (arrivals ! n)) (fst (arrivals ! 0) + real n * ?d)"
      using h st by (simp add: max_def)
    have b: "\<forall>n. Suc n < length arrivals \<longrightarrow> startOf ?S (Suc n) = endOf ?S n"
    proof (intro allI impI)
      fix n assume n: "Suc n < length arrivals"
      then have "startOf ?S (Suc n) = fst (arrivals ! 0) + real (Suc n) * ?d"
        and "startOf ?S n = fst (arrivals ! 0) + real n * ?d"
        and "bufferDuration (snd (scheduled ?S ! n)) = ?d"
        using st du by simp_all
      then show "startOf ?S (Suc n) = endOf ?S n"
        by (simp add: endOf_def startOf_def algebra_simps)
    qed
    show ?thesis using len a b by blast
  qed
  show ?thesis using step apart formula by blast
qed

theorem playback_schedule_witness:
  "scheduled exConnected = [] \<and> exArrivals \<noteq> []
   \<and> list_all (\<lambda>a. \<exists>bytes. snd a = Some bytes \<and> length bytes = 2 * 1) exArrivals
   \<and> nextStartTimeRef exConnected \<le> fst (exArrivals ! 0)
   \<and> list_all (\<lambda>n. fst (exArrivals ! n) \<le> fst (exArrivals ! 0) + real n * (real 1 / 24000))
        [0..<length exArrivals]
   \<and> nonOverlapping (scheduled (playAll exArrivals exConnected))
   \<and> length (scheduled (playAll exArrivals exConnected)) = 3
   \<and> startOf (playAll exArrivals exConnected) 2 = 1 + 1 / 12000
   \<and> startOf (playAll exArrivals exConnected) 2 = endOf (playAll exArrivals exConnected) 1"
proof -
  have h1: "scheduled exConnected = []"
    by (simp add: exConnected_def onopen_def startSession_resume_def startSession_begin_def
        exVoice0_def)
  have h2: "nextStartTimeRef exConnected \<le> fst (exArrivals ! 0)"
    by (simp add: exConnected_def onopen_def startSession_resume_def startSession_begin_def
        exVoice0_def exArrivals_def)
  have h3: "\<forall>a\<in>set exArrivals. \<exists>bytes. snd a = Some bytes \<and> length bytes = 2 * 1"
    by (simp add: exArrivals_def)
  have h4: "\<forall>n<length exArrivals.
          fst (exArrivals ! n) \<le> fst (exArrivals ! 0) + real n * (real 1 / 24000)"
    by (simp add: exArrivals_def less_Suc_eq)
  have h5: "exArrivals \<noteq> []" "length exArrivals = 3" "fst (exArrivals ! 0) = 1"
    "fst (exArrivals ! 2) = 1 + 1 / 48000"
    by (simp_all add: exArrivals_def)
  have t: "(\<forall>n<length exArrivals.
                  startOf (playAll exArrivals exConnected) n
                    = max (fst (exArrivals ! n)) (fst (exArrivals ! 0) + real n * (real 1 / 24000)))
            \<and> (\<forall>n. Suc n < length exArrivals \<longrightarrow>
                  startOf (playAll exArrivals exConnected) (Suc n) = endOf (playAll exArrivals exConnected) n)
        \<and> length (scheduled (playAll exArrivals exConnected)) = length exArrivals
        \<and> nonOverlapping (scheduled (playAll exArrivals exConnected))"
    using playback_schedule [OF h1, of exArrivals 1] h2 h3 h4 h5(1) by blast
  have two: "2 < length exArrivals" "Suc 1 < length exArrivals" by (simp_all add: h5(2))
  have "startOf (playAll exArrivals exConnected) 2
          = max (fst (exArrivals ! 2)) (fst (exArrivals ! 0) + real 2 * (real 1 / 24000))"
    using t two(1) by blast
  then have s2: "startOf (playAll exArrivals exConnected) 2 = 1 + 1 / 12000"
    by (simp add: h5(3,4))
  have "startOf (playAll exArrivals exConnected) (Suc 1) = endOf (playAll exArrivals exConnected) 1"
    using t two(2) by blast
  then have e2: "startOf (playAll exArrivals exConnected) 2 = endOf (playAll exArrivals exConnected) 1"
    by (simp add: numeral_2_eq_2)
  have l: "length (scheduled (playAll exArrivals exConnected)) = 3"
    using t h5(2) by simp
  have n: "nonOverlapping (scheduled (playAll exArrivals exConnected))"
    using t by blast
  have h3': "list_all (\<lambda>a. \<exists>bytes. snd a = Some bytes \<and> length bytes = 2 * 1) exArrivals"
    using h3 by (simp add: list_all_iff)
  have h4': "list_all
      (\<lambda>n. fst (exArrivals ! n) \<le> fst (exArrivals ! 0) + real n * (real 1 / 24000))
      [0..<length exArrivals]"
    using h4 by (simp add: list_all_iff)
  show ?thesis
    by (intro conjI h1 h2 h3' h4' h5(1) l n s2 e2)
qed

section \<open>Teardown of the voice session\<close>

lemma cleanup_refs:
  "processorRef (cleanup s) = None" "sourceRef (cleanup s) = None" "streamRef (cleanup s) = None"
  "audioContextRef (cleanup s) = None" "sessionRef (cleanup s) = None"
  "status (cleanup s) = Status_connecting" "volume (cleanup s) = 0"
  by (simp_all add: cleanup_def Let_def split: option.splits)

lemma cleanup_connectedNodes:
  "connectedNodes (cleanup s)
     = connectedNodes s - set_option (processorRef s) - set_option (sourceRef s)"
  by (auto simp add: cleanup_def Let_def split: option.splits)

lemma cleanup_liveStreams: "liveStreams (cleanup s) = liveStreams s - set_option (streamRef s)"
  by (auto simp add: cleanup_def Let_def split: option.splits)

lemma cleanup_openContexts:
  "openContexts (cleanup s) = openContexts s - set_option (audioContextRef s)"
  by (auto simp add: cleanup_def Let_def split: option.splits)

lemma cleanup_idem: "cleanup (cleanup s) = cleanup s"
proof -
  have "cleanup t = t"
    if "processorRef t = None" "sourceRef t = None" "streamRef t = None"
      "audioContextRef t = None" "sessionRef t = None" "status t = Status_connecting"
      "volume t = 0" for t
    using that by (simp add: cleanup_def)
  then show ?thesis by (simp add: cleanup_refs)
qed

text \<open>
  Claim C3, as amended. Closing the panel runs the clean-up (twice, with the effect of
  once): whatever the state, every reference is cleared, the status is
  \<open>connecting\<close> and the volume 0; the processor and the source that were held are
  disconnected, so that the capture callback of that processor is no longer enabled; the
  stream that was held has its tracks stopped; the playback context that was held is
  closed. A transport error and a close by the remote end set the status to \<open>error\<close>.
\<close>

theorem closePanel_releases:
  "closePanel s = cleanup s
   \<and> processorRef (closePanel s) = None \<and> sourceRef (closePanel s) = None
   \<and> streamRef (closePanel s) = None \<and> audioContextRef (closePanel s) = None
   \<and> sessionRef (closePanel s) = None
   \<and> status (closePanel s) = Status_connecting \<and> volume (closePanel s) = 0
   \<and> (\<forall>p. processorRef s = Some p \<longrightarrow> \<not> captureEnabled (closePanel s) p)
   \<and> (\<forall>n. sourceRef s = Some n \<longrightarrow> n \<notin> connectedNodes (closePanel s))
   \<and> (\<forall>m. streamRef s = Some m \<longrightarrow> m \<notin> liveStreams (closePanel s))
   \<and> (\<forall>c. audioContextRef s = Some c \<longrightarrow> c \<notin> openContexts (closePanel s))
   \<and> status (onerror s) = Status_error \<and> status (onclose s) = Status_error"
proof -
  have c: "closePanel s = cleanup s" by (simp add: closePanel_def cleanup_idem)
  show ?thesis
    unfolding c
    by (simp add: cleanup_refs captureEnabled_def cleanup_connectedNodes cleanup_liveStreams
        cleanup_openContexts onerror_def onclose_def)
qed

lemma exConnected_eq:
  "exConnected = \<lparr>status = Status_connected, volume = 0, audioContextRef = Some 1,
      streamRef = Some 2, processorRef = Some 5, sourceRef = Some 4, nextStartTimeRef = 1 / 2,
      sessionRef = Some 7, openContexts = {3, 1}, liveStreams = {2}, connectedNodes = {5, 4},
      scheduled = [], outbound = []\<rparr>"
  by (simp add: exConnected_def onopen_def startSession_resume_def startSession_begin_def
        exVoice0_def)

theorem closePanel_releases_witness:
  "processorRef exConnected = Some 5 \<and> captureEnabled exConnected 5
   \<and> \<not> captureEnabled (closePanel exConnected) 5
   \<and> sourceRef exConnected = Some 4 \<and> 4 \<notin> connectedNodes (closePanel exConnected)
   \<and> streamRef exConnected = Some 2 \<and> 2 \<in> liveStreams exConnected
   \<and> 2 \<notin> liveStreams (closePanel exConnected)
   \<and> audioContextRef exConnected = Some 1 \<and> 1 \<in> openContexts exConnected
   \<and> 1 \<notin> openContexts (closePanel exConnected)
   \<and> status (closePanel exConnected) = Status_connecting"
proof -
  have r: "processorRef exConnected = Some 5" "sourceRef exConnected = Some 4"
    "streamRef exConnected = Some 2" "audioContextRef exConnected = Some 1"
    by (simp_all add: exConnected_eq)
  have b: "captureEnabled exConnected 5" "2 \<in> liveStreams exConnected"
    "1 \<in> openContexts exConnected"
    by (simp_all add: exConnected_eq captureEnabled_def)
  show ?thesis
    using closePanel_releases [of exConnected] r b by auto
qed

text \<open>
  Claim C3 as stated fails on the error path: after a transport error in a connected
  session the status is \<open>error\<close>, not \<open>connecting\<close>, the microphone stream is still
  held and live, the processor is still connected with its capture callback enabled, and
  the playback context is still open.
\<close>

theorem transport_error_counterexample:
  "status (onerror exConnected) \<noteq> Status_connecting
   \<and> streamRef (onerror exConnected) = Some 2 \<and> 2 \<in> liveStreams (onerror exConnected)
   \<and> processorRef (onerror exConnected) = Some 5 \<and> captureEnabled (onerror exConnected) 5
   \<and> audioContextRef (onerror exConnected) = Some 1
   \<and> 1 \<in> openContexts (onerror exConnected)"
  by (simp add: exConnected_eq onerror_def captureEnabled_def)

section \<open>PCM conversion\<close>

lemma clamp_eq: "max (- 1) (min 1 x) = clampSample x"
  by (simp add: clampSample_def)

lemma scaled_range: "- 32768 \<le> spec_scaled x \<and> spec_scaled x \<le> 32767"
  by (simp add: spec_scaled_def clampSample_def Let_def)

lemma trunc_range:
  assumes "- 32768 \<le> y" "y \<le> 32767"
  shows "- 32768 \<le> (if 0 \<le> y then \<lfloor>y\<rfloor> else \<lceil>y\<rceil>)
         \<and> (if 0 \<le> y then \<lfloor>y\<rfloor> else \<lceil>y\<rceil>) \<le> 32767"
  using assms by (auto simp add: le_floor_iff floor_le_iff ceiling_le_iff le_ceiling_iff)

lemma sint_toInt16:
  assumes "- 32768 \<le> y" "y \<le> 32767"
  shows "sint (toInt16 y) = (if 0 \<le> y then \<lfloor>y\<rfloor> else \<lceil>y\<rceil>)"
proof -
  let ?t = "if 0 \<le> y then \<lfloor>y\<rfloor> else \<lceil>y\<rceil>"
  have "- 32768 \<le> ?t \<and> ?t \<le> 32767" by (rule trunc_range [OF assms])
  then have "sint (word_of_int ?t :: 16 word) = ?t"
    by (simp add: signed_of_int signed_take_bit_int_eq_self)
  then show ?thesis by (simp add: toInt16_def)
qed

lemma createPcmData_nth:
  "i < length inputData \<Longrightarrow> createPcmData inputData ! i = toInt16 (spec_scaled (inputData ! i))"
  by (simp add: createPcmData_def spec_scaled_def clamp_eq Let_def)

text \<open>
  Claim C8. The block of PCM data has one 16-bit value per sample. The value for a
  sample is the clamped sample, times 32768 when negative and times 32767 otherwise,
  with the fraction dropped towards zero; read as a signed number it lies between
  \<open>-32768\<close> and \<open>32767\<close>, so nothing wraps; samples from 1 up give 32767 and samples
  from \<open>-1\<close> down give \<open>-32768\<close>.
\<close>

theorem createPcmData_clamps_and_scales:
  assumes "i < length inputData"
  shows "length (createPcmData inputData) = length inputData
     \<and> (let x = inputData ! i;
             s = clampSample x;
             y = (if s < 0 then s * 32768 else s * 32767);
             v = sint (createPcmData inputData ! i)
         in - 1 \<le> s \<and> s \<le> 1
            \<and> v = (if 0 \<le> y then \<lfloor>y\<rfloor> else \<lceil>y\<rceil>)
            \<and> \<bar>real_of_int v\<bar> \<le> \<bar>y\<bar> \<and> \<bar>y - real_of_int v\<bar> < 1
            \<and> - 32768 \<le> v \<and> v \<le> 32767
            \<and> (1 \<le> x \<longrightarrow> v = 32767) \<and> (x \<le> - 1 \<longrightarrow> v = - 32768))"
proof -
  define y where "y = spec_scaled (inputData ! i)"
  define v where "v = sint (createPcmData inputData ! i)"
  have r: "- 32768 \<le> y \<and> y \<le> 32767" unfolding y_def by (rule scaled_range)
  have v: "v = (if 0 \<le> y then \<lfloor>y\<rfloor> else \<lceil>y\<rceil>)"
    using r by (simp add: v_def createPcmData_nth [OF assms] y_def [symmetric] sint_toInt16)
  have b: "- 32768 \<le> v \<and> v \<le> 32767" using trunc_range [of y] r v by simp
  have m: "\<bar>real_of_int v\<bar> \<le> \<bar>y\<bar> \<and> \<bar>y - real_of_int v\<bar> < 1"
  proof (cases "0 \<le> y")
    case True
    have a: "0 \<le> real_of_int \<lfloor>y\<rfloor>" using True by simp
    have b: "real_of_int \<lfloor>y\<rfloor> \<le> y" "y < real_of_int \<lfloor>y\<rfloor> + 1"
      using floor_correct [of y] by simp_all
    have "\<bar>real_of_int \<lfloor>y\<rfloor>\<bar> \<le> \<bar>y\<bar> \<and> \<bar>y - real_of_int \<lfloor>y\<rfloor>\<bar> < 1"
      using a b by linarith
    then show ?thesis using True by (simp only: v if_True)
  next
    case False
    have a: "real_of_int \<lceil>y\<rceil> \<le> 0" using False by (simp add: ceiling_le_iff)
    have b: "y \<le> real_of_int \<lceil>y\<rceil>" "real_of_int \<lceil>y\<rceil> - 1 < y"
      using ceiling_correct [of y] by simp_all
    have "\<bar>real_of_int \<lceil>y\<rceil>\<bar> \<le> \<bar>y\<bar> \<and> \<bar>y - real_of_int \<lceil>y\<rceil>\<bar> < 1"
      using a b by linarith
    then show ?thesis using False by (simp only: v if_False)
  qed
  have hi: "1 \<le> inputData ! i \<longrightarrow> v = 32767"
    unfolding v by (simp add: y_def spec_scaled_def clampSample_def)
  have lo: "inputData ! i \<le> - 1 \<longrightarrow> v = - 32768"
    unfolding v by (simp add: y_def spec_scaled_def clampSample_def)
  have c: "- 1 \<le> clampSample (inputData ! i) \<and> clampSample (inputData ! i) \<le> 1"
    by (simp add: clampSample_def)
  show ?thesis
    using v b m hi lo c
    by (simp add: createPcmData_def Let_def y_def v_def spec_scaled_def)
qed

theorem createPcmData_clamps_and_scales_witness:
  "1 < length exBlock \<and> length (createPcmData exBlock) = 6
   \<and> sint (createPcmData exBlock ! 1) = - 16384
   \<and> createPcmData exBlock = [16383, - 16384, 32767, - 32768, 0, 10922]"
proof -
  have h: "1 < length exBlock" by (simp add: exBlock_def)
  have l: "length exBlock = 6" "exBlock ! 1 = - 1 / 2" by (simp_all add: exBlock_def)
  have c: "createPcmData exBlock = [16383, - 16384, 32767, - 32768, 0, 10922]"
    by (simp add: createPcmData_def toInt16_def exBlock_def)
  show ?thesis
    using createPcmData_clamps_and_scales [OF h] h l c
    by (simp add: Let_def clampSample_def)
qed

section \<open>Quiz generation\<close>

text \<open>
  Claim C6, as amended. With neither text nor file the call fails with the error
  \<open>No content provided\<close>, which differs from the error of every other failure, and
  no request is issued. With some input exactly one request is issued, the error is never
  \<open>No content provided\<close>, and the call fails with \<open>Failed to generate quiz. Please
  try again.\<close> when the request throws, when the response has no text or an empty one,
  and when the text is not JSON. A text that is JSON is returned as parsed, whatever its
  structure.
\<close>

theorem generateQuiz_failures:
  "generateQuiz JSON_parse backend [] None config = (Inl (JsError ''No content provided''), [])
   \<and> JsError ''No content provided'' \<noteq> JsError ''Failed to generate quiz. Please try again.''
   \<and> (text \<noteq> [] \<or> file \<noteq> None \<longrightarrow>
        snd (generateQuiz JSON_parse backend text file config) = [requestParts text file config]
        \<and> fst (generateQuiz JSON_parse backend text file config)
            \<noteq> Inl (JsError ''No content provided'')
        \<and> ((\<exists>e. backend (requestParts text file config) = Throws e)
             \<or> backend (requestParts text file config) = Returns None
             \<or> backend (requestParts text file config) = Returns (Some [])
             \<or> (\<exists>t. backend (requestParts text file config) = Returns (Some t)
                      \<and> JSON_parse t = None)
            \<longrightarrow> fst (generateQuiz JSON_parse backend text file config)
                  = Inl (JsError ''Failed to generate quiz. Please try again.''))
        \<and> (\<forall>t v. backend (requestParts text file config) = Returns (Some t) \<and> t \<noteq> []
                  \<and> JSON_parse t = Some v
             \<longrightarrow> fst (generateQuiz JSON_parse backend text file config) = Inr v))"
  by (auto simp add: generateQuiz_def Let_def split: Reply.splits option.splits)

theorem generateQuiz_failures_witness:
  "generateQuiz exParse (exBackend ''<html>'') [] None exConfig
     = (Inl (JsError ''No content provided''), [])
   \<and> exBackend ''<html>'' (requestParts ''Paris is the capital of France.'' None exConfig)
       = Returns (Some ''<html>'')
   \<and> exParse ''<html>'' = None
   \<and> generateQuiz exParse (exBackend ''<html>'') ''Paris is the capital of France.'' None exConfig
     = (Inl (JsError ''Failed to generate quiz. Please try again.''),
        [[PromptPart exConfig, ContentPart ''Paris is the capital of France.'']])"
proof -
  have b: "exBackend ''<html>'' (requestParts ''Paris is the capital of France.'' None exConfig)
       = Returns (Some ''<html>'')"
    by (simp add: exBackend_def)
  have p: "exParse ''<html>'' = None" by (simp add: exParse_def)
  have r: "requestParts ''Paris is the capital of France.'' None exConfig
      = [PromptPart exConfig, ContentPart ''Paris is the capital of France.'']"
    by (simp add: requestParts_def)
  have "fst (generateQuiz exParse (exBackend ''<html>'') ''Paris is the capital of France.'' None exConfig)
      = Inl (JsError ''Failed to generate quiz. Please try again.'')
     \<and> snd (generateQuiz exParse (exBackend ''<html>'') ''Paris is the capital of France.'' None exConfig)
      = [requestParts ''Paris is the capital of France.'' None exConfig]"
    using generateQuiz_failures [of exParse "exBackend ''<html>''" exConfig
        "''Paris is the capital of France.''" None] b p
    by blast
  then have "generateQuiz exParse (exBackend ''<html>'') ''Paris is the capital of France.'' None exConfig
     = (Inl (JsError ''Failed to generate quiz. Please try again.''),
        [[PromptPart exConfig, ContentPart ''Paris is the capital of France.'']])"
    by (simp add: r prod_eq_iff)
  moreover have "generateQuiz exParse (exBackend ''<html>'') [] None exConfig
     = (Inl (JsError ''No content provided''), [])"
    using generateQuiz_failures [of exParse "exBackend ''<html>''" exConfig] by blast
  ultimately show ?thesis using b p by simp
qed

text \<open>
  Claim C6 as stated fails for a response that is JSON of another structure: the empty
  object is returned as the quiz although it has no title, no summary and no questions.
\<close>

theorem generateQuiz_unchecked_counterexample:
  "generateQuiz exParse (exBackend ''{}'') ''Paris is the capital of France.'' None exConfig
     = (Inr (JObject []), [[PromptPart exConfig, ContentPart ''Paris is the capital of France.'']])
   \<and> \<not> isQuizData (JObject [])"
  by (simp add: generateQuiz_def requestParts_def exBackend_def exParse_def isQuizData_def
      isString_def)

section \<open>Video generation\<close>

lemma pollOperation_final:
  "pollOperation operation rs = Some (Inr final) \<Longrightarrow>
   is_done final \<and> (final = operation \<or> Returns final \<in> set rs)"
  by (induction rs arbitrary: operation) (auto split: if_splits Reply.splits)

text \<open>
  Claim C10. When the call returns a string, the job has an operation that is done and
  carries a non-empty video URI, reported by the first request or by one of the polls,
  and the string is that URI followed by \<open>&key=\<close> and the API key.
\<close>

theorem generateExplainerVideo_appends_key:
  assumes "generateExplainerVideo API_KEY generateVideos polls customPrompt = Some (Inr url)"
  shows "\<exists>final uri. is_done final \<and> videoUri final = Some uri \<and> uri \<noteq> []
           \<and> url = uri @ ''&key='' @ API_KEY
           \<and> ((\<exists>prompt. generateVideos prompt = Returns final) \<or> Returns final \<in> set polls)"
proof -
  define prompt where "prompt = (case customPrompt of None \<Rightarrow> defaultPrompt
                    | Some p \<Rightarrow> if p = [] then defaultPrompt else p)"
  from assms obtain operation final uri where
    g: "generateVideos prompt = Returns operation"
    and p: "pollOperation operation polls = Some (Inr final)"
    and u: "videoUri final = Some uri" "uri \<noteq> []" "url = uri @ ''&key='' @ API_KEY"
    by (auto simp add: generateExplainerVideo_def prompt_def [symmetric] Let_def
        split: Reply.splits option.splits sum.splits if_splits)
  from pollOperation_final [OF p] g u show ?thesis by blast
qed

theorem generateExplainerVideo_appends_key_witness:
  "generateExplainerVideo ''SECRET'' exGenerateVideos exPolls None
     = Some (Inr ''https://v.example/a.mp4?alt=media&key=SECRET'')
   \<and> (\<exists>final uri. is_done final \<and> videoUri final = Some uri \<and> uri \<noteq> []
           \<and> ''https://v.example/a.mp4?alt=media&key=SECRET'' = uri @ ''&key='' @ ''SECRET''
           \<and> ((\<exists>prompt. exGenerateVideos prompt = Returns final) \<or> Returns final \<in> set exPolls))"
proof -
  have h: "generateExplainerVideo ''SECRET'' exGenerateVideos exPolls None
     = Some (Inr ''https://v.example/a.mp4?alt=media&key=SECRET'')"
    by (simp add: generateExplainerVideo_def exGenerateVideos_def exPolls_def)
  show ?thesis
    using generateExplainerVideo_appends_key [OF h] h by simp
qed

end
